theory Spec2Isabelle
  imports Main
begin

section \<open>The CSS selector builder of \<open>src/05-objects-tasks.js\<close>\<close>

text \<open>
  The class \<open>Builder\<close> is a mutable object whose methods return \<open>this\<close>, and
  \<open>combine\<close> reads two further objects that may or may not be the receiver. The model
  therefore has an explicit store: a heap is the list of the builders allocated so far, a
  reference is an index into it, and \<open>new Builder()\<close> appends an object. Every method
  takes the receiver's reference and the heap, and returns its outcome together with the
  heap it leaves behind: \<open>Inr r\<close> for \<open>return r\<close>, \<open>Inl e\<close> for \<open>throw e\<close>.
\<close>

subsection \<open>Objects, errors, the store\<close>

text \<open>The seven instance fields that the constructor assigns (lines 129 to 137).\<close>

record Builder =
  error1 :: string
  error2 :: string
  useElement :: bool
  useId :: bool
  usePseudoElement :: bool
  order :: nat
  "value" :: string

text \<open>\<open>new Error(message)\<close>.\<close>

datatype error = Error string

type_synonym ref = nat
type_synonym heap = "Builder list"
type_synonym outcome = "(error + ref) \<times> heap"

text \<open>\<open>new Builder()\<close>: allocation followed by the constructor body.\<close>

definition new_Builder :: "heap \<Rightarrow> ref \<times> heap" where
  "new_Builder h =
     (length h,
      h @ [\<lparr>error1 = ''Element, id and pseudo-element should not occur more then one time inside the selector'',
             error2 = ''Selector parts should be arranged in the following order: element, id, class, attribute, pseudo-class, pseudo-element'',
             useElement = False,
             useId = False,
             usePseudoElement = False,
             order = 0,
             value = ''''\<rparr>])"

subsection \<open>The methods of \<open>Builder\<close>\<close>

definition Builder_element :: "ref \<Rightarrow> string \<Rightarrow> heap \<Rightarrow> outcome" where
  "Builder_element this v h =
     (if useElement (h ! this) then (Inl (Error (error1 (h ! this))), h)
      else if order (h ! this) > 1 then (Inl (Error (error2 (h ! this))), h)
      else (Inr this,
            h[this := (h ! this)\<lparr>order := 1,
                                 value := value (h ! this) @ v,
                                 useElement := True\<rparr>]))"

definition Builder_id :: "ref \<Rightarrow> string \<Rightarrow> heap \<Rightarrow> outcome" where
  "Builder_id this v h =
     (if useId (h ! this) then (Inl (Error (error1 (h ! this))), h)
      else if order (h ! this) > 2 then (Inl (Error (error2 (h ! this))), h)
      else (Inr this,
            h[this := (h ! this)\<lparr>order := 2,
                                 value := value (h ! this) @ ''#'' @ v,
                                 useId := True\<rparr>]))"

definition Builder_class :: "ref \<Rightarrow> string \<Rightarrow> heap \<Rightarrow> outcome" where
  "Builder_class this v h =
     (if order (h ! this) > 3 then (Inl (Error (error2 (h ! this))), h)
      else (Inr this,
            h[this := (h ! this)\<lparr>order := 3,
                                 value := value (h ! this) @ ''.'' @ v\<rparr>]))"

definition Builder_attr :: "ref \<Rightarrow> string \<Rightarrow> heap \<Rightarrow> outcome" where
  "Builder_attr this v h =
     (if order (h ! this) > 4 then (Inl (Error (error2 (h ! this))), h)
      else (Inr this,
            h[this := (h ! this)\<lparr>order := 4,
                                 value := value (h ! this) @ ''['' @ v @ '']''\<rparr>]))"

definition Builder_pseudoClass :: "ref \<Rightarrow> string \<Rightarrow> heap \<Rightarrow> outcome" where
  "Builder_pseudoClass this v h =
     (if order (h ! this) > 5 then (Inl (Error (error2 (h ! this))), h)
      else (Inr this,
            h[this := (h ! this)\<lparr>order := 5,
                                 value := value (h ! this) @ '':'' @ v\<rparr>]))"

definition Builder_pseudoElement :: "ref \<Rightarrow> string \<Rightarrow> heap \<Rightarrow> outcome" where
  "Builder_pseudoElement this v h =
     (if usePseudoElement (h ! this) then (Inl (Error (error1 (h ! this))), h)
      else if order (h ! this) > 6 then (Inl (Error (error2 (h ! this))), h)
      else (Inr this,
            h[this := (h ! this)\<lparr>order := 6,
                                 value := value (h ! this) @ ''::'' @ v,
                                 usePseudoElement := True\<rparr>]))"

text \<open>
  \<open>combine\<close> only reads the field \<open>value\<close> of its two arguments and appends to the
  receiver's; it has no \<open>throw\<close>.
\<close>

definition Builder_combine :: "ref \<Rightarrow> ref \<Rightarrow> string \<Rightarrow> ref \<Rightarrow> heap \<Rightarrow> outcome" where
  "Builder_combine this selector1 combinator selector2 h =
     (Inr this,
      h[this := (h ! this)\<lparr>value := value (h ! this) @
           (value (h ! selector1) @ '' '' @ combinator @ '' '' @ value (h ! selector2))\<rparr>])"

text \<open>\<open>stringify\<close> returns a string, not a reference.\<close>

definition Builder_stringify :: "ref \<Rightarrow> heap \<Rightarrow> string \<times> heap" where
  "Builder_stringify this h =
     (let selector = value (h ! this)
      in (selector, h[this := (h ! this)\<lparr>value := ''''\<rparr>]))"

subsection \<open>The facade \<open>cssSelectorBuilder\<close>\<close>

definition cssSelectorBuilder_element :: "string \<Rightarrow> heap \<Rightarrow> outcome" where
  "cssSelectorBuilder_element v h =
     (case new_Builder h of (b, h') \<Rightarrow> Builder_element b v h')"

definition cssSelectorBuilder_id :: "string \<Rightarrow> heap \<Rightarrow> outcome" where
  "cssSelectorBuilder_id v h =
     (case new_Builder h of (b, h') \<Rightarrow> Builder_id b v h')"

definition cssSelectorBuilder_class :: "string \<Rightarrow> heap \<Rightarrow> outcome" where
  "cssSelectorBuilder_class v h =
     (case new_Builder h of (b, h') \<Rightarrow> Builder_class b v h')"

definition cssSelectorBuilder_attr :: "string \<Rightarrow> heap \<Rightarrow> outcome" where
  "cssSelectorBuilder_attr v h =
     (case new_Builder h of (b, h') \<Rightarrow> Builder_attr b v h')"

definition cssSelectorBuilder_pseudoClass :: "string \<Rightarrow> heap \<Rightarrow> outcome" where
  "cssSelectorBuilder_pseudoClass v h =
     (case new_Builder h of (b, h') \<Rightarrow> Builder_pseudoClass b v h')"

definition cssSelectorBuilder_pseudoElement :: "string \<Rightarrow> heap \<Rightarrow> outcome" where
  "cssSelectorBuilder_pseudoElement v h =
     (case new_Builder h of (b, h') \<Rightarrow> Builder_pseudoElement b v h')"

definition cssSelectorBuilder_combine :: "ref \<Rightarrow> string \<Rightarrow> ref \<Rightarrow> heap \<Rightarrow> outcome" where
  "cssSelectorBuilder_combine elector1 combinator selector2 h =
     (case new_Builder h of (b, h') \<Rightarrow> Builder_combine b elector1 combinator selector2 h')"

subsection \<open>Calls, chains and histories\<close>

text \<open>
  One constructor per append method, carrying the argument. The facade and the class
  have the same six method names; \<open>append_part\<close> is the call on an instance, and
  \<open>cssSelectorBuilder_part\<close> is the call on the facade.
\<close>

datatype part =
    Element string
  | Id string
  | Class string
  | Attr string
  | PseudoClass string
  | PseudoElement string

fun append_part :: "ref \<Rightarrow> part \<Rightarrow> heap \<Rightarrow> outcome" where
  "append_part this (Element v) h = Builder_element this v h"
| "append_part this (Id v) h = Builder_id this v h"
| "append_part this (Class v) h = Builder_class this v h"
| "append_part this (Attr v) h = Builder_attr this v h"
| "append_part this (PseudoClass v) h = Builder_pseudoClass this v h"
| "append_part this (PseudoElement v) h = Builder_pseudoElement this v h"

fun cssSelectorBuilder_part :: "part \<Rightarrow> heap \<Rightarrow> outcome" where
  "cssSelectorBuilder_part (Element v) h = cssSelectorBuilder_element v h"
| "cssSelectorBuilder_part (Id v) h = cssSelectorBuilder_id v h"
| "cssSelectorBuilder_part (Class v) h = cssSelectorBuilder_class v h"
| "cssSelectorBuilder_part (Attr v) h = cssSelectorBuilder_attr v h"
| "cssSelectorBuilder_part (PseudoClass v) h = cssSelectorBuilder_pseudoClass v h"
| "cssSelectorBuilder_part (PseudoElement v) h = cssSelectorBuilder_pseudoElement v h"

text \<open>
  A method chain \<open>b.m1(v1).m2(v2)...\<close>: each call is made on the reference the call
  before it returned, and a \<open>throw\<close> ends the chain.
\<close>

fun chain :: "part list \<Rightarrow> ref \<Rightarrow> heap \<Rightarrow> outcome" where
  "chain [] this h = (Inr this, h)"
| "chain (p # ps) this h =
     (case append_part this p h of
        (Inl e, h') \<Rightarrow> (Inl e, h')
      | (Inr r, h') \<Rightarrow> chain ps r h')"

text \<open>\<open>cssSelectorBuilder.m0(v0).m1(v1)...\<close>: a chain that starts on the facade.\<close>

definition build :: "part \<Rightarrow> part list \<Rightarrow> heap \<Rightarrow> outcome" where
  "build p ps h =
     (case cssSelectorBuilder_part p h of
        (Inl e, h') \<Rightarrow> (Inl e, h')
      | (Inr r, h') \<Rightarrow> chain ps r h')"

text \<open>
  A history is any sequence of calls a client can make: a method on an instance, or a
  method of the facade. The client goes on after a call that threw, with the heap that
  call left behind.
\<close>

datatype operation =
    Append ref part
  | Combine ref ref string ref
  | Stringify ref
  | Facade part
  | FacadeCombine ref string ref

fun perform :: "operation \<Rightarrow> heap \<Rightarrow> heap" where
  "perform (Append this p) h = snd (append_part this p h)"
| "perform (Combine this s1 c s2) h = snd (Builder_combine this s1 c s2 h)"
| "perform (Stringify this) h = snd (Builder_stringify this h)"
| "perform (Facade p) h = snd (cssSelectorBuilder_part p h)"
| "perform (FacadeCombine s1 c s2) h = snd (cssSelectorBuilder_combine s1 c s2 h)"

definition run :: "operation list \<Rightarrow> heap \<Rightarrow> heap" where
  "run ops h = fold perform ops h"

subsection \<open>The vocabulary of the specification\<close>

text \<open>
  The two error kinds of the specification are the two messages the constructor stores.
\<close>

definition DuplicateSelectorPartError :: error where
  "DuplicateSelectorPartError =
     Error ''Element, id and pseudo-element should not occur more then one time inside the selector''"

definition SelectorOrderError :: error where
  "SelectorOrderError =
     Error ''Selector parts should be arranged in the following order: element, id, class, attribute, pseudo-class, pseudo-element''"

text \<open>
  No method assigns \<open>error1\<close> or \<open>error2\<close>, so an instance still holds what its
  constructor stored.
\<close>

definition constructed :: "Builder \<Rightarrow> bool" where
  "constructed b \<longleftrightarrow>
     Error (error1 b) = DuplicateSelectorPartError \<and> Error (error2 b) = SelectorOrderError"

text \<open>The table of the specification: ordinal, token format and the once-only guard.\<close>

fun ordinal :: "part \<Rightarrow> nat" where
  "ordinal (Element v) = 1"
| "ordinal (Id v) = 2"
| "ordinal (Class v) = 3"
| "ordinal (Attr v) = 4"
| "ordinal (PseudoClass v) = 5"
| "ordinal (PseudoElement v) = 6"

fun token :: "part \<Rightarrow> string" where
  "token (Element v) = v"
| "token (Id v) = ''#'' @ v"
| "token (Class v) = ''.'' @ v"
| "token (Attr v) = ''['' @ v @ '']''"
| "token (PseudoClass v) = '':'' @ v"
| "token (PseudoElement v) = ''::'' @ v"

text \<open>
  The categories with max count 1, and the guard flag of each; the other categories
  have no flag.
\<close>

fun once_only :: "part \<Rightarrow> bool" where
  "once_only (Element v) = True"
| "once_only (Id v) = True"
| "once_only (PseudoElement v) = True"
| "once_only p = False"

fun used :: "part \<Rightarrow> Builder \<Rightarrow> bool" where
  "used (Element v) b = useElement b"
| "used (Id v) b = useId b"
| "used (PseudoElement v) b = usePseudoElement b"
| "used p b = False"

text \<open>
  Valid order: element, id, then any number of class, attribute, pseudo-class, then
  pseudo-element, with element, id and pseudo-element each at most once.
\<close>

definition valid_order :: "part list \<Rightarrow> bool" where
  "valid_order ps \<longleftrightarrow>
     sorted (map ordinal ps) \<and>
     count_list (map ordinal ps) 1 \<le> 1 \<and>
     count_list (map ordinal ps) 2 \<le> 1 \<and>
     count_list (map ordinal ps) 6 \<le> 1"

subsection \<open>Auxiliary notions for the proofs\<close>

text \<open>What a builder must look like for a chain of appends to go through.\<close>

definition admits :: "Builder \<Rightarrow> part list \<Rightarrow> bool" where
  "admits b ps \<longleftrightarrow>
     sorted (order b # map ordinal ps) \<and>
     count_list (map ordinal ps) 1 \<le> (if useElement b then 0 else 1) \<and>
     count_list (map ordinal ps) 2 \<le> (if useId b then 0 else 1) \<and>
     count_list (map ordinal ps) 6 \<le> (if usePseudoElement b then 0 else 1)"

text \<open>
  How one object can differ between two moments of a history: the messages stay, the
  stage does not go down, a guard flag that is set stays set.
\<close>

definition evolves :: "Builder \<Rightarrow> Builder \<Rightarrow> bool" where
  "evolves b b' \<longleftrightarrow>
     error1 b' = error1 b \<and> error2 b' = error2 b \<and> order b \<le> order b' \<and>
     (useElement b \<longrightarrow> useElement b') \<and> (useId b \<longrightarrow> useId b') \<and>
     (usePseudoElement b \<longrightarrow> usePseudoElement b')"

subsection \<open>Heaps of the examples\<close>

text \<open>One empty builder: \<open>new Builder()\<close> in an empty heap.\<close>

definition heap_empty_builder :: heap where
  "heap_empty_builder = snd (new_Builder [])"

text \<open>\<open>cssSelectorBuilder.element('a').class('b')\<close>.\<close>

definition heap_a_b :: heap where
  "heap_a_b = snd (build (Element ''a'') [Class ''b''] [])"

text \<open>\<open>cssSelectorBuilder.class('main')\<close>.\<close>

definition heap_main :: heap where
  "heap_main = snd (build (Class ''main'') [] [])"

text \<open>
  \<open>cssSelectorBuilder.element('div')\<close>, \<open>cssSelectorBuilder.element('table')\<close> and
  \<open>cssSelectorBuilder.element('tr').pseudoClass('hover')\<close>, at the references 0, 1 and 2.
\<close>

definition heap_div_table_tr :: heap where
  "heap_div_table_tr =
     snd (build (Element ''tr'') [PseudoClass ''hover'']
       (snd (build (Element ''table'') []
         (snd (build (Element ''div'') [] [])))))"

section \<open>Basic facts\<close>

lemmas method_defs =
  Builder_element_def Builder_id_def Builder_class_def Builder_attr_def
  Builder_pseudoClass_def Builder_pseudoElement_def

lemmas facade_defs =
  cssSelectorBuilder_element_def cssSelectorBuilder_id_def cssSelectorBuilder_class_def
  cssSelectorBuilder_attr_def cssSelectorBuilder_pseudoClass_def
  cssSelectorBuilder_pseudoElement_def

lemma messages_differ: "DuplicateSelectorPartError \<noteq> SelectorOrderError"
  by (simp add: DuplicateSelectorPartError_def SelectorOrderError_def)

lemma new_Builder_length: "length (snd (new_Builder h)) = Suc (length h)"
  by (simp add: new_Builder_def)

lemma new_Builder_old: "r < length h \<Longrightarrow> snd (new_Builder h) ! r = h ! r"
  by (simp add: new_Builder_def nth_append)

lemma new_Builder_constructed: "constructed (snd (new_Builder h) ! length h)"
  by (simp add: new_Builder_def constructed_def DuplicateSelectorPartError_def
      SelectorOrderError_def)

lemma facade_is_append:
  "cssSelectorBuilder_part p h = append_part (length h) p (snd (new_Builder h))"
  by (cases p) (simp_all add: facade_defs new_Builder_def)

lemma build_is_chain: "build p ps h = chain (p # ps) (length h) (snd (new_Builder h))"
  by (simp add: build_def facade_is_append)

subsection \<open>One append\<close>

text \<open>The three ways an append can go, read off the guards of the six methods.\<close>

lemma append_part_used:
  assumes "used p (h ! this)"
  shows "append_part this p h = (Inl (Error (error1 (h ! this))), h)"
  using assms by (cases p) (simp_all add: method_defs)

lemma append_part_late:
  assumes "\<not> used p (h ! this)" "ordinal p < order (h ! this)"
  shows "append_part this p h = (Inl (Error (error2 (h ! this))), h)"
  using assms by (cases p) (simp_all add: method_defs)

lemma append_part_ok:
  assumes "\<not> used p (h ! this)" "order (h ! this) \<le> ordinal p"
  shows "append_part this p h =
    (Inr this,
     h[this := (h ! this)\<lparr>order := ordinal p,
         value := value (h ! this) @ token p,
         useElement := useElement (h ! this) \<or> ordinal p = 1,
         useId := useId (h ! this) \<or> ordinal p = 2,
         usePseudoElement := usePseudoElement (h ! this) \<or> ordinal p = 6\<rparr>])"
  using assms by (cases p) (simp_all add: method_defs)

lemma append_part_cases:
  obtains (used) "used p (h ! this)"
  | (late) "\<not> used p (h ! this)" "ordinal p < order (h ! this)"
  | (ok) "\<not> used p (h ! this)" "order (h ! this) \<le> ordinal p"
  by fastforce

lemma append_part_length: "length (snd (append_part this p h)) = length h"
  by (cases p) (simp_all add: method_defs)

lemma append_part_other:
  assumes "r \<noteq> this"
  shows "snd (append_part this p h) ! r = h ! r"
  using assms by (cases p) (simp_all add: method_defs)

lemma append_part_evolves:
  assumes "this < length h"
  shows "evolves (h ! this) (snd (append_part this p h) ! this)"
proof (cases rule: append_part_cases [of p h this])
  case used
  then show ?thesis by (simp add: append_part_used evolves_def)
next
  case late
  then show ?thesis by (simp add: append_part_late evolves_def)
next
  case ok
  then show ?thesis using assms by (simp add: append_part_ok evolves_def)
qed

lemma append_part_sets_flag:
  assumes "this < length h" "once_only p" "fst (append_part this p h) = Inr r"
  shows "used p (snd (append_part this p h) ! this)"
proof (cases rule: append_part_cases [of p h this])
  case used
  with assms(3) show ?thesis by (simp add: append_part_used)
next
  case late
  with assms(3) show ?thesis by (simp add: append_part_late)
next
  case ok
  with assms(1,2) show ?thesis by (cases p) (simp_all add: method_defs)
qed

lemma used_same_category:
  assumes "once_only p" "ordinal q = ordinal p"
  shows "used q b = used p b"
  using assms by (cases p; cases q) simp_all

subsection \<open>Histories\<close>

lemma evolves_refl: "evolves b b"
  by (simp add: evolves_def)

lemma evolves_trans: "evolves a b \<Longrightarrow> evolves b c \<Longrightarrow> evolves a c"
  by (auto simp add: evolves_def)

lemma perform_length: "length h \<le> length (perform op h)"
  by (cases op)
    (simp_all add: append_part_length facade_is_append new_Builder_length
      Builder_combine_def Builder_stringify_def cssSelectorBuilder_combine_def
      new_Builder_def)

lemma perform_evolves:
  assumes "r < length h"
  shows "evolves (h ! r) (perform op h ! r)"
proof (cases op)
  case (Append this p)
  show ?thesis
  proof (cases "r = this")
    case True
    with assms Append show ?thesis by (simp add: append_part_evolves)
  next
    case False
    with Append show ?thesis by (simp add: append_part_other evolves_refl)
  qed
next
  case (Combine this s1 c s2)
  with assms show ?thesis
    by (cases "r = this") (simp_all add: Builder_combine_def evolves_def)
next
  case (Stringify this)
  with assms show ?thesis
    by (cases "r = this") (simp_all add: Builder_stringify_def evolves_def)
next
  case (Facade p)
  from assms have "r \<noteq> length h" by simp
  with assms Facade show ?thesis
    by (simp add: facade_is_append append_part_other new_Builder_old evolves_refl)
next
  case (FacadeCombine s1 c s2)
  from assms have "r \<noteq> length h" by simp
  with assms FacadeCombine show ?thesis
    by (simp add: cssSelectorBuilder_combine_def Builder_combine_def new_Builder_def
        nth_append evolves_refl)
qed

lemma run_Nil: "run [] h = h"
  by (simp add: run_def)

lemma run_Cons: "run (op # ops) h = run ops (perform op h)"
  by (simp add: run_def)

lemma run_snoc: "run (ops @ [op]) h = perform op (run ops h)"
  by (simp add: run_def)

lemma run_length: "length h \<le> length (run ops h)"
proof (induction ops arbitrary: h)
  case Nil
  show ?case by (simp add: run_Nil)
next
  case (Cons op ops)
  have "length h \<le> length (perform op h)" by (rule perform_length)
  also have "\<dots> \<le> length (run ops (perform op h))" by (rule Cons.IH)
  finally show ?case by (simp add: run_Cons)
qed

lemma run_evolves:
  assumes "r < length h"
  shows "evolves (h ! r) (run ops h ! r)"
  using assms
proof (induction ops arbitrary: h)
  case Nil
  show ?case by (simp add: run_Nil evolves_refl)
next
  case (Cons op ops)
  have "r < length (perform op h)"
    using Cons.prems perform_length [of h op] by simp
  then have "evolves (perform op h ! r) (run ops (perform op h) ! r)"
    by (rule Cons.IH)
  with perform_evolves [OF Cons.prems, of op] show ?case
    by (simp add: run_Cons) (rule evolves_trans)
qed

text \<open>
  Every builder of every heap a history reaches from the empty heap still holds the two
  messages of its constructor.
\<close>

lemma evolves_constructed: "evolves b b' \<Longrightarrow> constructed b \<Longrightarrow> constructed b'"
  by (simp add: evolves_def constructed_def)

lemma perform_new_length:
  "length (perform op h) = length h \<or> length (perform op h) = Suc (length h)"
  by (cases op)
    (simp_all add: append_part_length facade_is_append new_Builder_length
      Builder_combine_def Builder_stringify_def cssSelectorBuilder_combine_def
      new_Builder_def)

lemma perform_new_constructed:
  assumes "length (perform op h) = Suc (length h)"
  shows "constructed (perform op h ! length h)"
proof (cases op)
  case (Facade p)
  have "evolves (snd (new_Builder h) ! length h)
          (snd (append_part (length h) p (snd (new_Builder h))) ! length h)"
    by (rule append_part_evolves) (simp add: new_Builder_length)
  with Facade show ?thesis
    by (simp add: facade_is_append evolves_constructed [OF _ new_Builder_constructed])
next
  case (FacadeCombine s1 c s2)
  then show ?thesis
    by (simp add: cssSelectorBuilder_combine_def Builder_combine_def new_Builder_def
        constructed_def DuplicateSelectorPartError_def SelectorOrderError_def)
qed (use assms in \<open>simp_all add: append_part_length Builder_combine_def Builder_stringify_def\<close>)

lemma perform_constructed:
  assumes "\<forall>r < length h. constructed (h ! r)"
  shows "\<forall>r < length (perform op h). constructed (perform op h ! r)"
proof (intro allI impI)
  fix r
  assume r: "r < length (perform op h)"
  show "constructed (perform op h ! r)"
  proof (cases "r < length h")
    case True
    with assms perform_evolves [OF True, of op] show ?thesis
      by (simp add: evolves_constructed)
  next
    case False
    with r perform_new_length [of op h]
    have "length (perform op h) = Suc (length h)" and "r = length h"
      by auto
    then show ?thesis
      by (simp add: perform_new_constructed)
  qed
qed

lemma run_constructed:
  assumes "\<forall>r < length h. constructed (h ! r)"
  shows "\<forall>r < length (run ops h). constructed (run ops h ! r)"
  using assms
proof (induction ops arbitrary: h)
  case Nil
  then show ?case by (simp add: run_Nil)
next
  case (Cons op ops)
  from Cons.prems have "\<forall>r < length (perform op h). constructed (perform op h ! r)"
    by (rule perform_constructed)
  then show ?case
    unfolding run_Cons by (rule Cons.IH)
qed

lemma reachable_constructed:
  "r < length (run ops []) \<Longrightarrow> constructed (run ops [] ! r)"
  using run_constructed [of "[]" ops] by simp

subsection \<open>Chains\<close>

lemma admits_head:
  assumes "admits b (p # ps)"
  shows "order b \<le> ordinal p" "\<not> used p b"
  using assms by (cases p; simp add: admits_def split: if_splits)+

lemma admits_tail:
  assumes "admits b (p # ps)"
  shows "admits (b\<lparr>order := ordinal p, value := s,
       useElement := useElement b \<or> ordinal p = 1,
       useId := useId b \<or> ordinal p = 2,
       usePseudoElement := usePseudoElement b \<or> ordinal p = 6\<rparr>) ps"
  using assms by (cases p) (auto simp add: admits_def split: if_splits)

lemma chain_admitted:
  assumes "this < length h" "admits (h ! this) ps"
  shows "fst (chain ps this h) = Inr this
       \<and> length (snd (chain ps this h)) = length h
       \<and> value (snd (chain ps this h) ! this) = value (h ! this) @ concat (map token ps)"
  using assms
proof (induction ps arbitrary: h)
  case Nil
  then show ?case by simp
next
  case (Cons p ps)
  let ?b = "(h ! this)\<lparr>order := ordinal p, value := value (h ! this) @ token p,
       useElement := useElement (h ! this) \<or> ordinal p = 1,
       useId := useId (h ! this) \<or> ordinal p = 2,
       usePseudoElement := usePseudoElement (h ! this) \<or> ordinal p = 6\<rparr>"
  have step: "append_part this p h = (Inr this, h[this := ?b])"
    using Cons.prems admits_head by (intro append_part_ok) auto
  have "admits (h[this := ?b] ! this) ps"
    using Cons.prems admits_tail by simp
  with Cons.IH [of "h[this := ?b]"] Cons.prems(1) step show ?case
    by simp
qed

lemma new_admits: "valid_order ps \<Longrightarrow> admits (snd (new_Builder h) ! length h) ps"
  by (simp add: valid_order_def admits_def new_Builder_def)

lemma evolves_used: "evolves b b' \<Longrightarrow> used p b \<Longrightarrow> used p b'"
  by (cases p) (simp_all add: evolves_def)

text \<open>The method \<open>combine\<close> writes to its receiver and to no other object.\<close>

lemma Builder_combine_other:
  assumes "r \<noteq> this"
  shows "snd (Builder_combine this s1 c s2 h) ! r = h ! r"
  using assms by (simp add: Builder_combine_def)

lemmas example_defs =
  heap_empty_builder_def heap_a_b_def heap_main_def heap_div_table_tr_def
  build_def facade_defs method_defs new_Builder_def Builder_stringify_def
  Builder_combine_def cssSelectorBuilder_combine_def run_def
  DuplicateSelectorPartError_def SelectorOrderError_def constructed_def

section \<open>Appending in a valid order\<close>

text \<open>
  C1: a chain of appends that starts on the facade and whose categories come in a valid
  order (element, id, any number of class, attribute and pseudo-class, pseudo-element,
  the first two and the last at most once) goes through without an error, returns the
  builder the facade allocated, and \<open>stringify\<close> then returns the tokens of the
  chain concatenated in the order of the calls, with nothing between them.
\<close>

theorem valid_chain_renders_tokens:
  assumes "valid_order (p # ps)"
  shows "fst (build p ps h) = Inr (length h)
       \<and> fst (Builder_stringify (length h) (snd (build p ps h)))
           = concat (map token (p # ps))"
proof -
  let ?h0 = "snd (new_Builder h)"
  have "length h < length ?h0"
    by (simp add: new_Builder_length)
  moreover have "admits (?h0 ! length h) (p # ps)"
    using assms by (rule new_admits)
  ultimately have "fst (chain (p # ps) (length h) ?h0) = Inr (length h)
     \<and> value (snd (chain (p # ps) (length h) ?h0) ! length h)
         = value (?h0 ! length h) @ concat (map token (p # ps))"
    using chain_admitted by blast
  moreover have "value (?h0 ! length h) = []"
    by (simp add: new_Builder_def)
  ultimately show ?thesis
    unfolding build_is_chain by (simp add: Builder_stringify_def)
qed

text \<open>
  The two examples of the source's documentation:
  \<open>element('a').attr('href$=".png"').pseudoClass('focus')\<close> and
  \<open>id('main').class('container').class('editable')\<close>.
\<close>

theorem valid_chain_renders_tokens_witness:
  "valid_order [Element ''a'', Attr ''href$=\".png\"'', PseudoClass ''focus'']
   \<and> fst (build (Element ''a'') [Attr ''href$=\".png\"'', PseudoClass ''focus''] []) = Inr 0
   \<and> fst (Builder_stringify 0
        (snd (build (Element ''a'') [Attr ''href$=\".png\"'', PseudoClass ''focus''] [])))
      = ''a[href$=\".png\"]:focus''
   \<and> valid_order [Id ''main'', Class ''container'', Class ''editable'']
   \<and> fst (Builder_stringify 0
        (snd (build (Id ''main'') [Class ''container'', Class ''editable''] [])))
      = ''#main.container.editable''"
proof -
  have v1: "valid_order [Element ''a'', Attr ''href$=\".png\"'', PseudoClass ''focus'']"
    by (simp add: valid_order_def)
  have v2: "valid_order [Id ''main'', Class ''container'', Class ''editable'']"
    by (simp add: valid_order_def)
  show ?thesis
    using v1 v2 valid_chain_renders_tokens [OF v1, of "[]"]
      valid_chain_renders_tokens [OF v2, of "[]"]
    by simp
qed

section \<open>The two errors\<close>

text \<open>
  C2: once an append of element, id or pseudo-element has succeeded on a builder, every
  later append of the same category on that builder fails with
  \<open>DuplicateSelectorPartError\<close>, whatever its argument and whatever calls were made
  in between (on this builder, on others, or on the facade). With no call in between
  this is the double \<open>element\<close>.
\<close>

theorem duplicate_part_fails:
  assumes "this < length h"
    and "constructed (h ! this)"
    and "once_only p"
    and "fst (append_part this p h) = Inr r"
    and "ordinal q = ordinal p"
  shows "fst (append_part this q (run ops (snd (append_part this p h))))
           = Inl DuplicateSelectorPartError"
proof -
  let ?h1 = "snd (append_part this p h)"
  let ?h2 = "run ops ?h1"
  have len: "this < length ?h1"
    using assms(1) by (simp add: append_part_length)
  have e1: "evolves (h ! this) (?h1 ! this)"
    using assms(1) by (rule append_part_evolves)
  have e2: "evolves (?h1 ! this) (?h2 ! this)"
    using len by (rule run_evolves)
  have "used p (?h1 ! this)"
    using assms(1,3,4) by (rule append_part_sets_flag)
  with e2 have "used p (?h2 ! this)"
    by (rule evolves_used)
  then have "used q (?h2 ! this)"
    using used_same_category [OF assms(3,5)] by simp
  then have "fst (append_part this q ?h2) = Inl (Error (error1 (?h2 ! this)))"
    by (simp add: append_part_used)
  moreover have "error1 (?h2 ! this) = error1 (h ! this)"
    using e1 e2 by (simp add: evolves_def)
  ultimately show ?thesis
    using assms(2) by (simp add: constructed_def)
qed

text \<open>\<open>new Builder().element('table').element('div')\<close>.\<close>

theorem duplicate_part_fails_witness:
  "0 < length heap_empty_builder
   \<and> constructed (heap_empty_builder ! 0)
   \<and> once_only (Element ''table'')
   \<and> fst (append_part 0 (Element ''table'') heap_empty_builder) = Inr 0
   \<and> ordinal (Element ''div'') = ordinal (Element ''table'')
   \<and> fst (append_part 0 (Element ''div'')
        (run [] (snd (append_part 0 (Element ''table'') heap_empty_builder))))
      = Inl DuplicateSelectorPartError"
proof -
  have a: "0 < length heap_empty_builder"
    by (simp add: example_defs)
  have b: "constructed (heap_empty_builder ! 0)"
    by (simp add: example_defs)
  have c: "once_only (Element ''table'')"
    by simp
  have d: "fst (append_part 0 (Element ''table'') heap_empty_builder) = Inr 0"
    by (simp add: example_defs)
  have e: "ordinal (Element ''div'') = ordinal (Element ''table'')"
    by simp
  show ?thesis
    using a b c d e duplicate_part_fails [OF a b c d e, of "[]"] by blast
qed

text \<open>
  C3, as the specification states it, fails: after
  \<open>element('a').class('b')\<close> the stage is 3, above the ordinal 1 of element, and a
  second \<open>element\<close> fails with \<open>DuplicateSelectorPartError\<close>, because each of
  \<open>element\<close>, \<open>id\<close> and \<open>pseudoElement\<close> tests its guard flag before it tests
  the stage.
\<close>

theorem order_error_counterexample:
  "ordinal (Element ''c'') < order (heap_a_b ! 0)
   \<and> fst (append_part 0 (Element ''c'') heap_a_b) = Inl DuplicateSelectorPartError
   \<and> fst (append_part 0 (Element ''c'') heap_a_b) \<noteq> Inl SelectorOrderError"
  by (simp add: example_defs)

text \<open>
  C3, amended: an append whose ordinal is below the stage of the builder fails with
  \<open>SelectorOrderError\<close> unless its category is a once-only one already appended on
  this builder; then the guard flag is tested first and the append fails with
  \<open>DuplicateSelectorPartError\<close>. An append whose ordinal equals the stage never
  fails with \<open>SelectorOrderError\<close>.
\<close>

theorem order_error_unless_duplicate:
  assumes "constructed (h ! this)"
  shows "(ordinal p < order (h ! this) \<and> \<not> used p (h ! this)
            \<longrightarrow> fst (append_part this p h) = Inl SelectorOrderError)
       \<and> (ordinal p < order (h ! this) \<and> used p (h ! this)
            \<longrightarrow> fst (append_part this p h) = Inl DuplicateSelectorPartError)
       \<and> (ordinal p = order (h ! this)
            \<longrightarrow> fst (append_part this p h) \<noteq> Inl SelectorOrderError)"
proof (cases rule: append_part_cases [of p h this])
  case used
  with assms messages_differ show ?thesis
    by (simp add: append_part_used constructed_def)
next
  case late
  with assms show ?thesis
    by (simp add: append_part_late constructed_def)
next
  case ok
  then show ?thesis
    by (simp add: append_part_ok)
qed

text \<open>
  \<open>class('main').id('id')\<close> fails with \<open>SelectorOrderError\<close>;
  \<open>class('main').class('x')\<close>, at the stage 3 of class, does not; and
  \<open>element('a').class('b').element('c')\<close> fails with
  \<open>DuplicateSelectorPartError\<close>.
\<close>

theorem order_error_unless_duplicate_witness:
  "constructed (heap_main ! 0)
   \<and> ordinal (Id ''id'') < order (heap_main ! 0)
   \<and> \<not> used (Id ''id'') (heap_main ! 0)
   \<and> fst (append_part 0 (Id ''id'') heap_main) = Inl SelectorOrderError
   \<and> ordinal (Class ''x'') = order (heap_main ! 0)
   \<and> fst (append_part 0 (Class ''x'') heap_main) \<noteq> Inl SelectorOrderError
   \<and> constructed (heap_a_b ! 0)
   \<and> ordinal (Element ''c'') < order (heap_a_b ! 0)
   \<and> used (Element ''c'') (heap_a_b ! 0)
   \<and> fst (append_part 0 (Element ''c'') heap_a_b) = Inl DuplicateSelectorPartError"
proof -
  have a: "constructed (heap_main ! 0)"
    by (simp add: example_defs)
  have b: "ordinal (Id ''id'') < order (heap_main ! 0) \<and> \<not> used (Id ''id'') (heap_main ! 0)"
    by (simp add: example_defs)
  have c: "ordinal (Class ''x'') = order (heap_main ! 0)"
    by (simp add: example_defs)
  have d: "constructed (heap_a_b ! 0)"
    by (simp add: example_defs)
  have e: "ordinal (Element ''c'') < order (heap_a_b ! 0) \<and> used (Element ''c'') (heap_a_b ! 0)"
    by (simp add: example_defs)
  show ?thesis
    using a b c d e order_error_unless_duplicate [OF a, of "Id ''id''"]
      order_error_unless_duplicate [OF a, of "Class ''x''"]
      order_error_unless_duplicate [OF d, of "Element ''c''"]
    by blast
qed

text \<open>
  C4: an append that throws, with either message, leaves the whole heap as it was: the
  accumulator, the stage and the guard flags of the receiver are what they were before
  the call, and so is every other object.
\<close>

theorem failed_append_changes_nothing:
  assumes "fst (append_part this p h) = Inl e"
  shows "snd (append_part this p h) = h
       \<and> value (snd (append_part this p h) ! this) = value (h ! this)
       \<and> order (snd (append_part this p h) ! this) = order (h ! this)
       \<and> useElement (snd (append_part this p h) ! this) = useElement (h ! this)
       \<and> useId (snd (append_part this p h) ! this) = useId (h ! this)
       \<and> usePseudoElement (snd (append_part this p h) ! this) = usePseudoElement (h ! this)"
proof (cases rule: append_part_cases [of p h this])
  case used
  then show ?thesis by (simp add: append_part_used)
next
  case late
  then show ?thesis by (simp add: append_part_late)
next
  case ok
  with assms show ?thesis by (simp add: append_part_ok)
qed

text \<open>
  Both errors: \<open>element('a').class('b').element('c')\<close> and
  \<open>element('a').class('b').id('d')\<close>.
\<close>

theorem failed_append_changes_nothing_witness:
  "fst (append_part 0 (Element ''c'') heap_a_b) = Inl DuplicateSelectorPartError
   \<and> snd (append_part 0 (Element ''c'') heap_a_b) = heap_a_b
   \<and> fst (append_part 0 (Id ''d'') heap_a_b) = Inl SelectorOrderError
   \<and> snd (append_part 0 (Id ''d'') heap_a_b) = heap_a_b
   \<and> value (snd (append_part 0 (Id ''d'') heap_a_b) ! 0) = ''a.b''"
proof -
  have a: "fst (append_part 0 (Element ''c'') heap_a_b) = Inl DuplicateSelectorPartError"
    by (simp add: example_defs)
  have b: "fst (append_part 0 (Id ''d'') heap_a_b) = Inl SelectorOrderError"
    by (simp add: example_defs)
  have c: "value (heap_a_b ! 0) = ''a.b''"
    by (simp add: example_defs)
  show ?thesis
    using a b c failed_append_changes_nothing [OF a] failed_append_changes_nothing [OF b]
    by simp
qed

section \<open>Combining\<close>

text \<open>
  C5: \<open>cssSelectorBuilder.combine(left, combinator, right)\<close> returns a new builder,
  and \<open>stringify\<close> on it returns the accumulator of \<open>left\<close>, one space, the
  combinator, one space, the accumulator of \<open>right\<close>; the combinator is any string.
  A result of \<open>combine\<close> used as the left or as the right operand of a second
  \<open>combine\<close> is joined in the same way, one space on each side of each combinator.
\<close>

theorem combine_renders_joined:
  assumes "left < length h" and "right < length h" and "third < length h"
  shows "fst (cssSelectorBuilder_combine left c1 right h) = Inr (length h)
       \<and> fst (Builder_stringify (length h) (snd (cssSelectorBuilder_combine left c1 right h)))
           = value (h ! left) @ '' '' @ c1 @ '' '' @ value (h ! right)
       \<and> fst (Builder_stringify (Suc (length h))
             (snd (cssSelectorBuilder_combine (length h) c2 third
               (snd (cssSelectorBuilder_combine left c1 right h)))))
           = (value (h ! left) @ '' '' @ c1 @ '' '' @ value (h ! right))
               @ '' '' @ c2 @ '' '' @ value (h ! third)
       \<and> fst (Builder_stringify (Suc (length h))
             (snd (cssSelectorBuilder_combine third c2 (length h)
               (snd (cssSelectorBuilder_combine left c1 right h)))))
           = value (h ! third) @ '' '' @ c2 @ '' ''
               @ (value (h ! left) @ '' '' @ c1 @ '' '' @ value (h ! right))"
  using assms
  by (simp add: cssSelectorBuilder_combine_def Builder_combine_def Builder_stringify_def
      new_Builder_def nth_append)

text \<open>
  \<open>combine(element('div'), '+', element('table'))\<close>, and that result combined with
  \<open>element('tr').pseudoClass('hover')\<close> on either side.
\<close>

theorem combine_renders_joined_witness:
  "0 < length heap_div_table_tr \<and> 1 < length heap_div_table_tr
   \<and> 2 < length heap_div_table_tr
   \<and> fst (Builder_stringify 3 (snd (cssSelectorBuilder_combine 0 ''+'' 1 heap_div_table_tr)))
      = ''div + table''
   \<and> fst (Builder_stringify 4
        (snd (cssSelectorBuilder_combine 3 ''~'' 2
          (snd (cssSelectorBuilder_combine 0 ''+'' 1 heap_div_table_tr)))))
      = ''div + table ~ tr:hover''
   \<and> fst (Builder_stringify 4
        (snd (cssSelectorBuilder_combine 2 ''~'' 3
          (snd (cssSelectorBuilder_combine 0 ''+'' 1 heap_div_table_tr)))))
      = ''tr:hover ~ div + table''"
proof -
  have len: "length heap_div_table_tr = 3"
    by (simp add: example_defs)
  have a: "0 < length heap_div_table_tr"
    and b: "1 < length heap_div_table_tr"
    and c: "2 < length heap_div_table_tr"
    by (simp_all add: len)
  have v: "value (heap_div_table_tr ! 0) = ''div''"
    "value (heap_div_table_tr ! 1) = ''table''"
    "value (heap_div_table_tr ! 2) = ''tr:hover''"
    by (simp_all add: example_defs)
  show ?thesis
    using a b c v combine_renders_joined [OF a b c, of "''+''" "''~''"]
    by (simp add: len)
qed

text \<open>
  C10: \<open>cssSelectorBuilder.combine\<close> leaves every builder that existed before the
  call as it was, its two arguments among them: it writes to the builder it allocates
  and only reads the field \<open>value\<close> of the arguments. Each argument still renders
  to its full accumulator afterwards.
\<close>

theorem combine_leaves_arguments:
  assumes "left < length h" and "right < length h"
  shows "take (length h) (snd (cssSelectorBuilder_combine left c right h)) = h
       \<and> snd (cssSelectorBuilder_combine left c right h) ! left = h ! left
       \<and> snd (cssSelectorBuilder_combine left c right h) ! right = h ! right
       \<and> fst (Builder_stringify left (snd (cssSelectorBuilder_combine left c right h)))
           = value (h ! left)
       \<and> fst (Builder_stringify right (snd (cssSelectorBuilder_combine left c right h)))
           = value (h ! right)"
  using assms
  by (simp add: cssSelectorBuilder_combine_def Builder_combine_def Builder_stringify_def
      new_Builder_def nth_append)

theorem combine_leaves_arguments_witness:
  "0 < length heap_div_table_tr \<and> 1 < length heap_div_table_tr
   \<and> take 3 (snd (cssSelectorBuilder_combine 0 ''+'' 1 heap_div_table_tr))
      = heap_div_table_tr
   \<and> fst (Builder_stringify 0 (snd (cssSelectorBuilder_combine 0 ''+'' 1 heap_div_table_tr)))
      = ''div''
   \<and> fst (Builder_stringify 1 (snd (cssSelectorBuilder_combine 0 ''+'' 1 heap_div_table_tr)))
      = ''table''"
proof -
  have len: "length heap_div_table_tr = 3"
    by (simp add: example_defs)
  have a: "0 < length heap_div_table_tr"
    and b: "1 < length heap_div_table_tr"
    by (simp_all add: len)
  have v: "value (heap_div_table_tr ! 0) = ''div''"
    "value (heap_div_table_tr ! 1) = ''table''"
    by (simp_all add: example_defs)
  show ?thesis
    using a b v combine_leaves_arguments [OF a b, of "''+''"]
    by (simp add: len)
qed

section \<open>Rendering\<close>

text \<open>
  C6: \<open>stringify\<close> (the spec's \<open>render\<close>) returns the accumulator of the receiver and
  leaves it empty, so a second call straight after the first returns the empty string.
  The receiver is any allocated builder.
\<close>

theorem stringify_returns_and_clears:
  assumes "this < length h"
  shows "fst (Builder_stringify this h) = value (h ! this)
       \<and> value (snd (Builder_stringify this h) ! this) = ''''
       \<and> fst (Builder_stringify this (snd (Builder_stringify this h))) = ''''"
  using assms by (simp add: Builder_stringify_def)

text \<open>\<open>element('a').class('b')\<close> rendered twice.\<close>

theorem stringify_returns_and_clears_witness:
  "0 < length heap_a_b
   \<and> fst (Builder_stringify 0 heap_a_b) = ''a.b''
   \<and> fst (Builder_stringify 0 (snd (Builder_stringify 0 heap_a_b))) = ''''"
proof -
  have a: "0 < length heap_a_b"
    by (simp add: example_defs)
  have v: "value (heap_a_b ! 0) = ''a.b''"
    by (simp add: example_defs)
  show ?thesis
    using a stringify_returns_and_clears [OF a] by (simp add: v)
qed

text \<open>
  C7: \<open>stringify\<close> leaves the stage and the three guard flags of the receiver as they
  were and only empties its accumulator. Hence every append has the same outcome after
  the call as it would have had before it: a once-only category appended before still
  counts as used, and the ordering restrictions still apply.
\<close>

theorem stringify_keeps_stage_and_flags:
  assumes "this < length h"
  shows "order (snd (Builder_stringify this h) ! this) = order (h ! this)
       \<and> useElement (snd (Builder_stringify this h) ! this) = useElement (h ! this)
       \<and> useId (snd (Builder_stringify this h) ! this) = useId (h ! this)
       \<and> usePseudoElement (snd (Builder_stringify this h) ! this)
           = usePseudoElement (h ! this)
       \<and> value (snd (Builder_stringify this h) ! this) = ''''
       \<and> fst (append_part this p (snd (Builder_stringify this h)))
           = fst (append_part this p h)"
  using assms by (cases p) (simp_all add: Builder_stringify_def method_defs)

text \<open>
  After \<open>element('a').class('b').stringify()\<close> the same builder still refuses a second
  \<open>element\<close> and an \<open>id\<close>.
\<close>

theorem stringify_keeps_stage_and_flags_witness:
  "0 < length heap_a_b
   \<and> order (snd (Builder_stringify 0 heap_a_b) ! 0) = 3
   \<and> useElement (snd (Builder_stringify 0 heap_a_b) ! 0)
   \<and> fst (append_part 0 (Element ''c'') (snd (Builder_stringify 0 heap_a_b)))
      = Inl DuplicateSelectorPartError
   \<and> fst (append_part 0 (Id ''d'') (snd (Builder_stringify 0 heap_a_b)))
      = Inl SelectorOrderError"
proof -
  have a: "0 < length heap_a_b"
    by (simp add: example_defs)
  have b: "order (heap_a_b ! 0) = 3" "useElement (heap_a_b ! 0)"
    by (simp_all add: example_defs)
  have c: "fst (append_part 0 (Element ''c'') heap_a_b) = Inl DuplicateSelectorPartError"
    "fst (append_part 0 (Id ''d'') heap_a_b) = Inl SelectorOrderError"
    by (simp_all add: example_defs)
  show ?thesis
    using a b c stringify_keeps_stage_and_flags [OF a, of "Element ''c''"]
      stringify_keeps_stage_and_flags [OF a, of "Id ''d''"]
    by simp
qed

section \<open>The stage over a history\<close>

text \<open>
  C8: the stage of a builder never goes down. Whatever single call is made, on this
  builder, on another one or on the facade, succeeding or throwing, the stage after it
  is at least the stage before it; and so it is over any sequence of calls, and at
  every step of one.
\<close>

theorem stage_never_decreases:
  assumes "r < length h"
  shows "order (h ! r) \<le> order (perform op h ! r)
       \<and> order (h ! r) \<le> order (run ops h ! r)
       \<and> order (run ops h ! r) \<le> order (run (ops @ [op]) h ! r)"
proof -
  have "r < length (run ops h)"
    using assms run_length [of h ops] by simp
  then have "evolves (run ops h ! r) (perform op (run ops h) ! r)"
    by (rule perform_evolves)
  moreover have "evolves (h ! r) (perform op h ! r)"
    using assms by (rule perform_evolves)
  moreover have "evolves (h ! r) (run ops h ! r)"
    using assms by (rule run_evolves)
  ultimately show ?thesis
    by (simp add: evolves_def run_snoc)
qed

text \<open>
  On \<open>element('a').class('b')\<close>, at stage 3: an \<open>id\<close> that throws, a
  \<open>stringify\<close>, an \<open>attr\<close>, a \<open>combine\<close> on the facade, then an
  \<open>element\<close> that throws. The stage ends at 4.
\<close>

theorem stage_never_decreases_witness:
  "0 < length heap_a_b
   \<and> order (heap_a_b ! 0) = 3
   \<and> order (heap_a_b ! 0)
      \<le> order (run [Append 0 (Id ''d''), Stringify 0, Append 0 (Attr ''e''),
                    FacadeCombine 0 ''+'' 0] heap_a_b ! 0)
   \<and> order (run [Append 0 (Id ''d''), Stringify 0, Append 0 (Attr ''e''),
                FacadeCombine 0 ''+'' 0] heap_a_b ! 0)
      \<le> order (run ([Append 0 (Id ''d''), Stringify 0, Append 0 (Attr ''e''),
                    FacadeCombine 0 ''+'' 0] @ [Append 0 (Element ''c'')]) heap_a_b ! 0)
   \<and> order (run ([Append 0 (Id ''d''), Stringify 0, Append 0 (Attr ''e''),
                FacadeCombine 0 ''+'' 0] @ [Append 0 (Element ''c'')]) heap_a_b ! 0) = 4"
proof -
  have a: "0 < length heap_a_b"
    by (simp add: example_defs)
  have b: "order (heap_a_b ! 0) = 3"
    by (simp add: example_defs)
  have c: "order (run ([Append 0 (Id ''d''), Stringify 0, Append 0 (Attr ''e''),
                FacadeCombine 0 ''+'' 0] @ [Append 0 (Element ''c'')]) heap_a_b ! 0) = 4"
    by (simp add: example_defs)
  show ?thesis
    using a b c
      stage_never_decreases [OF a, of "Append 0 (Element ''c'')"
        "[Append 0 (Id ''d''), Stringify 0, Append 0 (Attr ''e''), FacadeCombine 0 ''+'' 0]"]
    by blast
qed

section \<open>The facade\<close>

text \<open>
  C9: each of the six entry methods of the facade is the append of the same name on a
  builder that \<open>new Builder()\<close> has just allocated. None of them throws: the result is
  the new reference, and the new builder holds the one token, the ordinal of the
  category as its stage, and the guard flag of the category and no other.
\<close>

theorem facade_entry_is_append_on_new_builder:
  "cssSelectorBuilder_element v h
     = Builder_element (fst (new_Builder h)) v (snd (new_Builder h))
   \<and> cssSelectorBuilder_id v h
     = Builder_id (fst (new_Builder h)) v (snd (new_Builder h))
   \<and> cssSelectorBuilder_class v h
     = Builder_class (fst (new_Builder h)) v (snd (new_Builder h))
   \<and> cssSelectorBuilder_attr v h
     = Builder_attr (fst (new_Builder h)) v (snd (new_Builder h))
   \<and> cssSelectorBuilder_pseudoClass v h
     = Builder_pseudoClass (fst (new_Builder h)) v (snd (new_Builder h))
   \<and> cssSelectorBuilder_pseudoElement v h
     = Builder_pseudoElement (fst (new_Builder h)) v (snd (new_Builder h))
   \<and> fst (cssSelectorBuilder_part p h) = Inr (length h)
   \<and> take (length h) (snd (cssSelectorBuilder_part p h)) = h
   \<and> value (snd (cssSelectorBuilder_part p h) ! length h) = token p
   \<and> order (snd (cssSelectorBuilder_part p h) ! length h) = ordinal p
   \<and> useElement (snd (cssSelectorBuilder_part p h) ! length h) = (ordinal p = 1)
   \<and> useId (snd (cssSelectorBuilder_part p h) ! length h) = (ordinal p = 2)
   \<and> usePseudoElement (snd (cssSelectorBuilder_part p h) ! length h) = (ordinal p = 6)"
proof -
  have "cssSelectorBuilder_part p h
      = (Inr (length h),
         (snd (new_Builder h))[length h := (snd (new_Builder h) ! length h)
           \<lparr>order := ordinal p,
            value := value (snd (new_Builder h) ! length h) @ token p,
            useElement := useElement (snd (new_Builder h) ! length h) \<or> ordinal p = 1,
            useId := useId (snd (new_Builder h) ! length h) \<or> ordinal p = 2,
            usePseudoElement :=
              usePseudoElement (snd (new_Builder h) ! length h) \<or> ordinal p = 6\<rparr>])"
    unfolding facade_is_append
    by (rule append_part_ok) (cases p; simp add: new_Builder_def)+
  then show ?thesis
    by (simp add: facade_defs new_Builder_def)
qed

end
